theory Spec2Isabelle
  imports Main "HOL-Library.Word" "HOL-Library.Monad_Syntax"
begin

section \<open>Data model (inc/types.h, inc/gate.h, inc/booleannet.h)\<close>

datatype gateFunction_t = BUFFER | AND | OR | XOR

datatype gatePlacement_t = INPUT | INNER | OUTPUT

record scoap_t =
  cc0 :: "32 word"
  cc1 :: "32 word"
  co :: "32 word"

text \<open>
  A \<^verbatim>\<open>Gate *\<close> is either NULL (\<open>None\<close>) or the address of a gate in the store.
  The store is the list of all gates allocated so far; \<^verbatim>\<open>new Gate(..)\<close> appends.
  Dereferencing NULL, or an address that was never allocated, is a crash: the
  operation returns \<open>None\<close>.
\<close>

type_synonym ptr = "nat option"

text \<open>
  The fields of class Gate. \<^verbatim>\<open>int depth\<close> is only ever compared with and assigned
  from \<^verbatim>\<open>unsigned int\<close> values, so it is kept as its 32-bit pattern. The fields
  gateModel, delay, inTreeSize and outTreeSize are not read by any operation below and
  are left out.
\<close>

record Gate =
  inputs :: "ptr list"
  inputInverters :: "bool list"
  followingGates :: "ptr list"
  outputInverter :: bool
  placed :: bool
  placeX :: int
  placeY :: int
  outputValue :: bool
  complementaryGate :: ptr
  gateFunction :: gateFunction_t
  gatePlacement :: gatePlacement_t
  gateName :: string
  depth :: "32 word"
  scoapParams :: scoap_t
  color :: int

type_synonym heap = "Gate list"

definition INT_MAX :: "32 word" where
  "INT_MAX = 2147483647"

text \<open>Gate::Gate(string gateName)\<close>

definition new_Gate :: "string \<Rightarrow> Gate" where
  "new_Gate nm =
     \<lparr> inputs = [], inputInverters = [], followingGates = [],
       outputInverter = False,
       placed = False, placeX = 0, placeY = 0,
       outputValue = False,
       complementaryGate = None,
       gateFunction = BUFFER, gatePlacement = INNER,
       gateName = nm, depth = 0,
       scoapParams = \<lparr> cc0 = INT_MAX, cc1 = INT_MAX, co = INT_MAX \<rparr>,
       color = 0 \<rparr>"

section \<open>Store access\<close>

fun deref :: "heap \<Rightarrow> ptr \<Rightarrow> Gate option" where
  "deref h None = None"
| "deref h (Some a) = (if a < length h then Some (h ! a) else None)"

text \<open>Run a method that only touches the fields of \<^verbatim>\<open>this\<close>.\<close>

fun on_gate :: "ptr \<Rightarrow> (Gate \<Rightarrow> Gate) \<Rightarrow> heap \<Rightarrow> heap option" where
  "on_gate None f h = None"
| "on_gate (Some a) f h = (if a < length h then Some (h[a := f (h ! a)]) else None)"

text \<open>\<^verbatim>\<open>new Gate(name)\<close>: the new gate's address and the extended store.\<close>

definition alloc :: "string \<Rightarrow> heap \<Rightarrow> ptr \<times> heap" where
  "alloc nm h = (Some (length h), h @ [new_Gate nm])"

section \<open>Gate: placement (gate.cpp 61-109)\<close>

definition isPlaced :: "Gate \<Rightarrow> bool" where
  "isPlaced g = placed g"

definition getPlaceXCoord :: "Gate \<Rightarrow> int" where
  "getPlaceXCoord g = (if placed g then placeX g else - 1)"

definition getPlaceYCoord :: "Gate \<Rightarrow> int" where
  "getPlaceYCoord g = (if placed g then placeY g else - 1)"

definition placeGate :: "int \<Rightarrow> int \<Rightarrow> Gate \<Rightarrow> Gate" where
  "placeGate x y g = g\<lparr> placed := True, placeX := x, placeY := y \<rparr>"

section \<open>Gate: simple accessors\<close>

definition getFanOut :: "Gate \<Rightarrow> nat" where
  "getFanOut g = length (followingGates g)"

definition getFanIn :: "Gate \<Rightarrow> nat" where
  "getFanIn g = length (inputs g)"

definition getFollow :: "Gate \<Rightarrow> nat \<Rightarrow> ptr" where
  "getFollow g i = (if length (followingGates g) \<le> i then None else followingGates g ! i)"

definition getDriver :: "Gate \<Rightarrow> nat \<Rightarrow> ptr" where
  "getDriver g i = (if length (inputs g) \<le> i then None else inputs g ! i)"

definition isInputInverting :: "Gate \<Rightarrow> nat \<Rightarrow> bool" where
  "isInputInverting g i = (if length (inputInverters g) \<le> i then False else inputInverters g ! i)"

definition setInputInverting :: "nat \<Rightarrow> Gate \<Rightarrow> Gate" where
  "setInputInverting i g =
     (if i < length (inputInverters g) then g\<lparr> inputInverters := (inputInverters g)[i := True] \<rparr> else g)"

definition setInputNonInverting :: "nat \<Rightarrow> Gate \<Rightarrow> Gate" where
  "setInputNonInverting i g =
     (if i < length (inputInverters g) then g\<lparr> inputInverters := (inputInverters g)[i := False] \<rparr> else g)"


definition setOutputNonInverting :: "Gate \<Rightarrow> Gate" where
  "setOutputNonInverting g = g\<lparr> outputInverter := False \<rparr>"

definition isOutputInverting :: "Gate \<Rightarrow> bool" where
  "isOutputInverting g = outputInverter g"

definition setFunction :: "gateFunction_t \<Rightarrow> Gate \<Rightarrow> Gate" where
  "setFunction fn g = g\<lparr> gateFunction := fn \<rparr>"

definition setPlacement :: "gatePlacement_t \<Rightarrow> Gate \<Rightarrow> Gate" where
  "setPlacement pl g = g\<lparr> gatePlacement := pl \<rparr>"

definition setComplement :: "ptr \<Rightarrow> Gate \<Rightarrow> Gate" where
  "setComplement c g = g\<lparr> complementaryGate := c \<rparr>"


definition setOutputValue :: "bool \<Rightarrow> Gate \<Rightarrow> Gate" where
  "setOutputValue b g = g\<lparr> outputValue := b \<rparr>"

section \<open>Gate: followers (gate.cpp 303-326)\<close>

definition newFollow :: "ptr \<Rightarrow> Gate \<Rightarrow> Gate" where
  "newFollow follow g =
     (if follow = None then g else g\<lparr> followingGates := follow # followingGates g \<rparr>)"

text \<open>\<^verbatim>\<open>v.erase(v.begin() + i)\<close>\<close>

definition erase_at :: "nat \<Rightarrow> 'a list \<Rightarrow> 'a list" where
  "erase_at i xs = take i xs @ drop (Suc i) xs"

text \<open>
  The loop of remFollow: after an erase the index still advances, and the loop goes on
  to the end of the (shortened) vector.
\<close>

function remFollow_loop :: "ptr \<Rightarrow> nat \<Rightarrow> ptr list \<Rightarrow> ptr list" where
  "remFollow_loop follow i fs =
     (if i < length fs
      then (if fs ! i = follow
            then remFollow_loop follow (i + 1) (erase_at i fs)
            else remFollow_loop follow (i + 1) fs)
      else fs)"
  by pat_completeness auto
termination
  by (relation "measure (\<lambda>(follow, i, fs). length fs - i)") (auto simp: erase_at_def)

declare remFollow_loop.simps [simp del]

definition remFollow :: "ptr \<Rightarrow> Gate \<Rightarrow> Gate" where
  "remFollow follow g =
     (if follow = None then g
      else g\<lparr> followingGates := remFollow_loop follow 0 (followingGates g) \<rparr>)"

section \<open>Gate: drivers (gate.cpp 397-409)\<close>

text \<open>The loop of remInput erases the same position of both vectors.\<close>

function remInput_loop :: "ptr \<Rightarrow> nat \<Rightarrow> ptr list \<times> bool list \<Rightarrow> ptr list \<times> bool list" where
  "remInput_loop pred i (ins, invs) =
     (if i < length ins
      then (if ins ! i = pred
            then remInput_loop pred (i + 1) (erase_at i ins, erase_at i invs)
            else remInput_loop pred (i + 1) (ins, invs))
      else (ins, invs))"
  by pat_completeness auto
termination
  by (relation "measure (\<lambda>(pred, i, ins, invs). length ins - i)") (auto simp: erase_at_def)

declare remInput_loop.simps [simp del]

definition remInput :: "ptr \<Rightarrow> Gate \<Rightarrow> Gate" where
  "remInput pred g =
     (if pred = None then g
      else (case remInput_loop pred 0 (inputs g, inputInverters g) of
              (ins, invs) \<Rightarrow> g\<lparr> inputs := ins, inputInverters := invs \<rparr>))"


section \<open>Gate: depth (gate.cpp 261-273)\<close>

text \<open>
  setDepth recurses through the followers for as long as depths grow; on a cyclic
  follower graph it need not return. The first argument bounds the number of nested
  calls and loop steps: \<open>None\<close> is a crash (NULL or unallocated gate) or the bound
  being reached. The comparison \<^verbatim>\<open>this->depth < d\<close> is between int and unsigned int,
  hence unsigned.
\<close>

fun setDepth :: "nat \<Rightarrow> ptr \<Rightarrow> 32 word \<Rightarrow> heap \<Rightarrow> (bool \<times> heap) option"
  and setDepth_followers :: "nat \<Rightarrow> ptr \<Rightarrow> nat \<Rightarrow> heap \<Rightarrow> heap option" where
  "setDepth 0 this d h = None"
| "setDepth (Suc n) this d h =
     (case deref h this of
        None \<Rightarrow> None
      | Some g \<Rightarrow>
          if depth g < d
          then (case on_gate this (\<lambda>g. g\<lparr> depth := d \<rparr>) h of
                  None \<Rightarrow> None
                | Some h1 \<Rightarrow> map_option (Pair True) (setDepth_followers n this 0 h1))
          else Some (False, h))"
| "setDepth_followers 0 this i h = None"
| "setDepth_followers (Suc n) this i h =
     (case deref h this of
        None \<Rightarrow> None
      | Some g \<Rightarrow>
          if i < length (followingGates g)
          then (case setDepth n (followingGates g ! i) (depth g + 1) h of
                  None \<Rightarrow> None
                | Some (_, h') \<Rightarrow> setDepth_followers n this (i + 1) h')
          else Some h)"

definition getDepth :: "Gate \<Rightarrow> 32 word" where
  "getDepth g = depth g"

section \<open>Gate: newInput and swapDriver (gate.cpp 380-392, 435-448)\<close>

definition newInput :: "nat \<Rightarrow> ptr \<Rightarrow> ptr \<Rightarrow> bool \<Rightarrow> heap \<Rightarrow> heap option" where
  "newInput n this pred isInverting h =
     (case deref h this of
        None \<Rightarrow> None
      | Some g \<Rightarrow>
          if pred = None then Some h
          else (case on_gate this (\<lambda>g. g\<lparr> inputs := pred # inputs g,
                                           inputInverters := isInverting # inputInverters g \<rparr>) h of
                  None \<Rightarrow> None
                | Some h1 \<Rightarrow>
                    (case deref h1 pred of
                       None \<Rightarrow> None
                     | Some p \<Rightarrow> map_option snd (setDepth n this (getDepth p + 1) h1))))"

fun first_index :: "'a \<Rightarrow> 'a list \<Rightarrow> nat option" where
  "first_index x [] = None"
| "first_index x (y # ys) = (if y = x then Some 0 else map_option Suc (first_index x ys))"

definition swapDriver :: "nat \<Rightarrow> ptr \<Rightarrow> ptr \<Rightarrow> ptr \<Rightarrow> heap \<Rightarrow> heap option" where
  "swapDriver n this oldDriver newDriver h =
     (case deref h this of
        None \<Rightarrow> None
      | Some g \<Rightarrow>
          (case first_index oldDriver (inputs g) of
             None \<Rightarrow> Some h
           | Some i \<Rightarrow>
               (case on_gate this (\<lambda>g. g\<lparr> inputs := (inputs g)[i := newDriver] \<rparr>) h of
                  None \<Rightarrow> None
                | Some h1 \<Rightarrow>
                    if newDriver = None then Some h1
                    else (case deref h1 newDriver of
                            None \<Rightarrow> None
                          | Some nd \<Rightarrow> map_option snd (setDepth n this (getDepth nd + 1) h1)))))"

section \<open>Gate: computeOutputValue (gate.cpp 212-250)\<close>

text \<open>The value arriving on input i: the driver's output, XOR the edge's inverting bit.\<close>

definition edge_value :: "heap \<Rightarrow> Gate \<Rightarrow> nat \<Rightarrow> bool option" where
  "edge_value h g i =
     (case deref h (getDriver g i) of
        None \<Rightarrow> None
      | Some d \<Rightarrow> Some (outputValue d \<noteq> isInputInverting g i))"

text \<open>One of the three \<^verbatim>\<open>for\<close> loops of the switch, with its operator.\<close>

function loop_inputs :: "(bool \<Rightarrow> bool \<Rightarrow> bool) \<Rightarrow> heap \<Rightarrow> Gate \<Rightarrow> nat \<Rightarrow> bool \<Rightarrow> bool option" where
  "loop_inputs opr h g i result =
     (if i < getFanIn g
      then (case edge_value h g i of
              None \<Rightarrow> None
            | Some v \<Rightarrow> loop_inputs opr h g (i + 1) (opr result v))
      else Some result)"
  by pat_completeness auto
termination
  by (relation "measure (\<lambda>(opr, h, g, i, result). getFanIn g - i)") auto

declare loop_inputs.simps [simp del]

text \<open>
  The bodies of the four case labels. Each takes the value \<^verbatim>\<open>result\<close> has when
  control arrives at the label; the first three overwrite it before their loop.
\<close>

definition case_AND :: "heap \<Rightarrow> Gate \<Rightarrow> bool \<Rightarrow> bool option" where
  "case_AND h g result = loop_inputs (\<lambda>r v. r \<and> v) h g 0 True"

definition case_OR :: "heap \<Rightarrow> Gate \<Rightarrow> bool \<Rightarrow> bool option" where
  "case_OR h g result = loop_inputs (\<lambda>r v. r \<or> v) h g 0 False"

definition case_XOR :: "heap \<Rightarrow> Gate \<Rightarrow> bool \<Rightarrow> bool option" where
  "case_XOR h g result = loop_inputs (\<lambda>r v. r \<noteq> v) h g 0 False"

definition case_BUFFER :: "heap \<Rightarrow> Gate \<Rightarrow> bool \<Rightarrow> bool option" where
  "case_BUFFER h g result = map_option (\<lambda>v. result \<noteq> v) (edge_value h g 0)"

text \<open>
  The switch has no \<^verbatim>\<open>break\<close>: control entering at a label runs every later label
  too. \<^verbatim>\<open>result\<close> is declared without an initialiser; \<open>uninit\<close> is the value it
  happens to hold, which only the BUFFER entry reads.
\<close>

definition switch_result :: "bool \<Rightarrow> heap \<Rightarrow> Gate \<Rightarrow> bool option" where
  "switch_result uninit h g =
     (case gateFunction g of
        AND \<Rightarrow> Option.bind (Option.bind (Option.bind (case_AND h g uninit) (case_OR h g)) (case_XOR h g)) (case_BUFFER h g)
      | OR \<Rightarrow> Option.bind (Option.bind (case_OR h g uninit) (case_XOR h g)) (case_BUFFER h g)
      | XOR \<Rightarrow> Option.bind (case_XOR h g uninit) (case_BUFFER h g)
      | BUFFER \<Rightarrow> case_BUFFER h g uninit)"

definition computeOutputValue :: "bool \<Rightarrow> ptr \<Rightarrow> heap \<Rightarrow> heap option" where
  "computeOutputValue uninit this h =
     (case deref h this of
        None \<Rightarrow> None
      | Some g \<Rightarrow>
          (case switch_result uninit h g of
             None \<Rightarrow> None
           | Some result \<Rightarrow>
               on_gate this (\<lambda>g. g\<lparr> outputValue := (if isOutputInverting g then \<not> result else result) \<rparr>) h))"

section \<open>BooleanNet (booleannet.cpp)\<close>

text \<open>
  The vector of primary inputs is called \<open>net_inputs\<close> here, since \<open>inputs\<close> is the
  driver list of a gate. netAvgFanOut (a float) is left out.
\<close>

record BooleanNet =
  gates :: "ptr list"
  net_inputs :: "ptr list"
  outputs :: "ptr list"
  buffers :: "ptr list"
  netDepth :: "32 word"
  netSumScoap :: "32 word"
  netPlaced :: bool

text \<open>BooleanNet::computeNetDepth (booleannet.cpp 182-190): the store is only read.\<close>

function computeNetDepth_loop :: "heap \<Rightarrow> ptr list \<Rightarrow> nat \<Rightarrow> 32 word \<Rightarrow> 32 word option" where
  "computeNetDepth_loop h outs i nd =
     (if i < length outs
      then (case deref h (outs ! i) of
              None \<Rightarrow> None
            | Some g \<Rightarrow> computeNetDepth_loop h outs (i + 1) (if getDepth g > nd then getDepth g else nd))
      else Some nd)"
  by pat_completeness auto
termination
  by (relation "measure (\<lambda>(h, outs, i, nd). length outs - i)") auto

declare computeNetDepth_loop.simps [simp del]

definition computeNetDepth :: "heap \<Rightarrow> BooleanNet \<Rightarrow> BooleanNet option" where
  "computeNetDepth h net =
     map_option (\<lambda>nd. net\<lparr> netDepth := nd \<rparr>) (computeNetDepth_loop h (outputs net) 0 (netDepth net))"

definition getNetDepth :: "BooleanNet \<Rightarrow> 32 word" where
  "getNetDepth net = netDepth net"

section \<open>Loops\<close>

text \<open>
  \<^verbatim>\<open>for (int i = i0; i < bound; i++) body\<close>, where the bound is an expression read from
  the current state before every step. The first argument bounds the number of steps;
  \<open>None\<close> is a crash inside the bound or the body, or that number being reached.
\<close>

fun for_loop :: "nat \<Rightarrow> ('s \<Rightarrow> nat option) \<Rightarrow> (nat \<Rightarrow> 's \<Rightarrow> 's option) \<Rightarrow> nat \<Rightarrow> 's \<Rightarrow> 's option" where
  "for_loop 0 bound body i s = None"
| "for_loop (Suc n) bound body i s =
     (case bound s of
        None \<Rightarrow> None
      | Some b \<Rightarrow>
          if i < b
          then (case body i s of
                  None \<Rightarrow> None
                | Some s' \<Rightarrow> for_loop n bound body (i + 1) s')
          else Some s)"

text \<open>\<^verbatim>\<open>while (cond) body\<close>, bounded in the same way.\<close>

fun while_loop :: "nat \<Rightarrow> ('s \<Rightarrow> bool option) \<Rightarrow> ('s \<Rightarrow> 's option) \<Rightarrow> 's \<Rightarrow> 's option" where
  "while_loop 0 cond body s = None"
| "while_loop (Suc n) cond body s =
     (case cond s of
        None \<Rightarrow> None
      | Some c \<Rightarrow>
          if c
          then (case body s of
                  None \<Rightarrow> None
                | Some s' \<Rightarrow> while_loop n cond body s')
          else Some s)"

text \<open>A bound that does not depend on the state, such as the size of a vector the loop leaves alone.\<close>

definition const_bound :: "nat \<Rightarrow> 's \<Rightarrow> nat option" where
  "const_bound b s = Some b"

text \<open>Reading a member of the gate a pointer refers to: \<^verbatim>\<open>p->getX()\<close>.\<close>

definition rd :: "heap \<Rightarrow> ptr \<Rightarrow> (Gate \<Rightarrow> 'a) \<Rightarrow> 'a option" where
  "rd h p f = map_option f (deref h p)"

definition getName :: "Gate \<Rightarrow> string" where
  "getName g = gateName g"

definition getFunction :: "Gate \<Rightarrow> gateFunction_t" where
  "getFunction g = gateFunction g"

definition getPlacement :: "Gate \<Rightarrow> gatePlacement_t" where
  "getPlacement g = gatePlacement g"

definition getComplement :: "Gate \<Rightarrow> ptr" where
  "getComplement g = complementaryGate g"

definition getOutputValue :: "Gate \<Rightarrow> bool" where
  "getOutputValue g = outputValue g"

definition get0Controlability :: "Gate \<Rightarrow> 32 word" where
  "get0Controlability g = cc0 (scoapParams g)"

definition get1Controlability :: "Gate \<Rightarrow> 32 word" where
  "get1Controlability g = cc1 (scoapParams g)"

definition getObservability :: "Gate \<Rightarrow> 32 word" where
  "getObservability g = co (scoapParams g)"

section \<open>BooleanNet: construction and accessors (booleannet.cpp 33-143)\<close>

text \<open>\<^verbatim>\<open>sprintf(tmp_buff, "%d", i)\<close> for a non-negative i.\<close>

definition digit_char :: "nat \<Rightarrow> char" where
  "digit_char d = char_of (48 + d)"

function dec :: "nat \<Rightarrow> string" where
  "dec n = (if n < 10 then [digit_char n] else dec (n div 10) @ [digit_char (n mod 10)])"
  by pat_completeness auto
termination
  by (relation "measure id") auto

declare dec.simps [simp del]

text \<open>
  Each of the three loops of the constructor fills one vector, slot by slot, with a
  newly allocated gate.
\<close>

definition ctor_input :: "nat \<Rightarrow> nat \<Rightarrow> heap \<times> ptr list \<Rightarrow> (heap \<times> ptr list) option" where
  "ctor_input n i s =
     (case s of (h, v) \<Rightarrow>
        do {
          let (p, h) = alloc (''INPUT_'' @ dec i) h;
          h \<leftarrow> on_gate p (setFunction BUFFER) h;
          h \<leftarrow> on_gate p (setPlacement INPUT) h;
          (_, h) \<leftarrow> setDepth n p 0 h;
          Some (h, v[i := p])
        })"

definition ctor_gate :: "nat \<Rightarrow> heap \<times> ptr list \<Rightarrow> (heap \<times> ptr list) option" where
  "ctor_gate i s =
     (case s of (h, v) \<Rightarrow>
        do {
          let (p, h) = alloc (''GATE_'' @ dec i) h;
          h \<leftarrow> on_gate p (setPlacement INNER) h;
          Some (h, v[i := p])
        })"

definition ctor_output :: "nat \<Rightarrow> heap \<times> ptr list \<Rightarrow> (heap \<times> ptr list) option" where
  "ctor_output i s =
     (case s of (h, v) \<Rightarrow>
        do {
          let (p, h) = alloc (''OUT_'' @ dec i) h;
          h \<leftarrow> on_gate p (setFunction BUFFER) h;
          h \<leftarrow> on_gate p (setPlacement OUTPUT) h;
          Some (h, v[i := p])
        })"

definition vec_size :: "heap \<times> ptr list \<Rightarrow> nat option" where
  "vec_size s = Some (length (snd s))"

definition new_BooleanNet :: "nat \<Rightarrow> nat \<Rightarrow> nat \<Rightarrow> nat \<Rightarrow> heap \<Rightarrow> (heap \<times> BooleanNet) option" where
  "new_BooleanNet n in_count out_count gate_count h =
     do {
       (h, ins) \<leftarrow> for_loop n vec_size (ctor_input n) 0 (h, replicate in_count None);
       (h, gs) \<leftarrow> for_loop n vec_size ctor_gate 0 (h, replicate gate_count None);
       (h, outs) \<leftarrow> for_loop n vec_size ctor_output 0 (h, replicate out_count None);
       Some (h, \<lparr> gates = gs, net_inputs = ins, outputs = outs, buffers = [],
                  netDepth = 0, netSumScoap = 0, netPlaced = False \<rparr>)
     }"

definition getGate :: "BooleanNet \<Rightarrow> nat \<Rightarrow> ptr" where
  "getGate net gateNr = (if gateNr < length (gates net) then gates net ! gateNr else None)"

definition getInput :: "BooleanNet \<Rightarrow> nat \<Rightarrow> ptr" where
  "getInput net inpNr = (if inpNr < length (net_inputs net) then net_inputs net ! inpNr else None)"

definition getOutput :: "BooleanNet \<Rightarrow> nat \<Rightarrow> ptr" where
  "getOutput net outNr = (if outNr < length (outputs net) then outputs net ! outNr else None)"

definition remOutput :: "nat \<Rightarrow> BooleanNet \<Rightarrow> BooleanNet" where
  "remOutput outNr net =
     (if outNr < length (outputs net) then net\<lparr> outputs := erase_at outNr (outputs net) \<rparr> else net)"


section \<open>Reading the AIGER file (aagloader.cpp)\<close>

text \<open>
  The input file stream: what is left to read and the two state bits the loader depends
  on. A file that cannot be opened gives a stream that is not open.
\<close>

record ifstream =
  is_open :: bool
  chars :: string
  eofbit :: bool
  failbit :: bool

definition open_file :: "string option \<Rightarrow> ifstream" where
  "open_file file =
     (case file of
        None \<Rightarrow> \<lparr> is_open = False, chars = [], eofbit = False, failbit = True \<rparr>
      | Some content \<Rightarrow> \<lparr> is_open = True, chars = content, eofbit = False, failbit = False \<rparr>)"

definition eof :: "ifstream \<Rightarrow> bool" where
  "eof st = eofbit st"

text \<open>The characters before the first delimiter, what follows it, and whether it was found.\<close>

fun take_until :: "char \<Rightarrow> string \<Rightarrow> string \<times> string \<times> bool" where
  "take_until d [] = ([], [], False)"
| "take_until d (c # cs) =
     (if c = d then ([], cs, True)
      else (case take_until d cs of (l, rest, found) \<Rightarrow> (c # l, rest, found)))"

text \<open>
  \<^verbatim>\<open>std::getline(stream, line, delim)\<close>. On a stream that is not good nothing is read,
  failbit is set and \<open>line\<close> keeps its old content. Otherwise the line is replaced by
  the characters up to the delimiter, which is consumed; running into the end of the
  file sets eofbit, and failbit too if nothing at all was extracted.
\<close>

definition getline :: "char \<Rightarrow> ifstream \<times> string \<Rightarrow> ifstream \<times> string" where
  "getline delim s =
     (case s of (st, line) \<Rightarrow>
        if eofbit st \<or> failbit st then (st\<lparr> failbit := True \<rparr>, line)
        else (case take_until delim (chars st) of
                (l, rest, found) \<Rightarrow>
                  if found then (st\<lparr> chars := rest \<rparr>, l)
                  else (st\<lparr> chars := [], eofbit := True, failbit := (l = []) \<rparr>, l)))"

definition newline :: char where
  "newline = CHR 0x0A"

definition isspace :: "char \<Rightarrow> bool" where
  "isspace c = (c \<in> set [CHR '' '', CHR 0x09, CHR 0x0A, CHR 0x0B, CHR 0x0C, CHR 0x0D])"

definition isdigit :: "char \<Rightarrow> bool" where
  "isdigit c = (48 \<le> (of_char c :: nat) \<and> (of_char c :: nat) \<le> 57)"

fun digits_value :: "nat \<Rightarrow> string \<Rightarrow> nat" where
  "digits_value acc [] = acc"
| "digits_value acc (c # cs) =
     (if isdigit c then digits_value (10 * acc + (of_char c - 48)) cs else acc)"

definition LONG_MAX :: int where
  "LONG_MAX = 2 ^ 63 - 1"

definition LONG_MIN :: int where
  "LONG_MIN = - (2 ^ 63)"

text \<open>
  \<^verbatim>\<open>strtol(line.c_str(), 0, 10)\<close>: the C string ends at the first NUL; leading white
  space is skipped, then an optional sign, then decimal digits; without digits the result
  is 0; a value out of the range of long is clamped.
\<close>

definition strtol :: "string \<Rightarrow> int" where
  "strtol s =
     (let s1 = dropWhile isspace (takeWhile (\<lambda>c. c \<noteq> CHR 0x00) s);
          (neg, s2) = (case s1 of
                         [] \<Rightarrow> (False, s1)
                       | c # r \<Rightarrow> if c = CHR ''-'' then (True, r)
                                  else if c = CHR ''+'' then (False, r) else (False, s1));
          v = int (digits_value 0 s2)
      in if neg then max LONG_MIN (- v) else min LONG_MAX v)"

text \<open>
  Storing a long into an \<^verbatim>\<open>int\<close>, and \<^verbatim>\<open>int\<close> arithmetic: the value modulo \<open>2^32\<close>,
  read as two's complement. (Signed overflow is undefined in C++; it wraps here.)
\<close>

definition int32 :: "int \<Rightarrow> int" where
  "int32 v = (v + 2 ^ 31) mod 2 ^ 32 - 2 ^ 31"

text \<open>Passing an \<^verbatim>\<open>int\<close> where an \<^verbatim>\<open>unsigned int\<close> is expected.\<close>

definition uint32 :: "int \<Rightarrow> nat" where
  "uint32 v = nat (v mod 2 ^ 32)"

text \<open>Division and remainder of C++: the quotient is truncated towards zero.\<close>

definition cdiv :: "int \<Rightarrow> int \<Rightarrow> int" where
  "cdiv a b = sgn a * sgn b * (\<bar>a\<bar> div \<bar>b\<bar>)"

definition cmod :: "int \<Rightarrow> int \<Rightarrow> int" where
  "cmod a b = a - b * cdiv a b"

record aag_header =
  hdr_M :: int
  hdr_I :: int
  hdr_L :: int
  hdr_O :: int
  hdr_A :: int

text \<open>
  The header: six fields, each read after a test of eof(). The first must begin with
  \<open>aag\<close>. \<open>Inl\<close> carries the message written to the error stream.
\<close>

definition read_magic :: "ifstream \<times> string \<Rightarrow> string + ifstream \<times> string" where
  "read_magic s =
     (if \<not> eof (fst s)
      then (case getline CHR '' '' s of
              (st, line) \<Rightarrow> if take 3 line \<noteq> ''aag'' then Inl ''Incorrect format.'' else Inr (st, line))
      else Inr s)"

definition read_field :: "char \<Rightarrow> string \<Rightarrow> ifstream \<times> string \<Rightarrow> string + int \<times> ifstream \<times> string" where
  "read_field delim msg s =
     (if \<not> eof (fst s)
      then (case getline delim s of (st, line) \<Rightarrow> Inr (int32 (strtol line), st, line))
      else Inl msg)"

definition read_header :: "ifstream \<times> string \<Rightarrow> string + aag_header \<times> ifstream \<times> string" where
  "read_header s =
     (case read_magic s of Inl e \<Rightarrow> Inl e | Inr s \<Rightarrow>
      case read_field CHR '' '' ''Unexpected EOF (0).'' s of Inl e \<Rightarrow> Inl e | Inr (m, s) \<Rightarrow>
      case read_field CHR '' '' ''Unexpected EOF (1).'' s of Inl e \<Rightarrow> Inl e | Inr (i, s) \<Rightarrow>
      case read_field CHR '' '' ''Unexpected EOF (2).'' s of Inl e \<Rightarrow> Inl e | Inr (l, s) \<Rightarrow>
      case read_field CHR '' '' ''Unexpected EOF (3).'' s of Inl e \<Rightarrow> Inl e | Inr (out, s) \<Rightarrow>
      case read_field newline ''Unexpected EOF (4).'' s of Inl e \<Rightarrow> Inl e | Inr (a, s) \<Rightarrow>
        Inr (\<lparr> hdr_M = m, hdr_I = i, hdr_L = l, hdr_O = out, hdr_A = a \<rparr>, s))"

text \<open>
  What the constructor leaves behind: the isLoaded flag, the out-parameter \<^verbatim>\<open>*net\<close>
  (\<open>None\<close> while it has not been assigned) together with the store, and the lines
  written to the error stream.
\<close>

record loader_result =
  isLoaded :: bool
  net_out :: "(heap \<times> BooleanNet) option"
  errors :: "string list"

definition isFileLoaded :: "loader_result \<Rightarrow> bool" where
  "isFileLoaded r = isLoaded r"

definition load_error :: "string \<Rightarrow> loader_result" where
  "load_error msg = \<lparr> isLoaded = False, net_out = None, errors = [msg] \<rparr>"

text \<open>The state of the three loading loops; \<open>Inl\<close> is the early \<^verbatim>\<open>return\<close> at end of file.\<close>

type_synonym load_state = "ifstream \<times> string \<times> heap \<times> BooleanNet"

function load_inputs :: "int \<Rightarrow> int \<Rightarrow> load_state \<Rightarrow> load_state + load_state" where
  "load_inputs I i (st, line, h, net) =
     (if i < I
      then (if \<not> eof st
            then (case getline newline (st, line) of
                    (st, line) \<Rightarrow> load_inputs I (i + 1) (st, line, h, net))
            else Inl (st, line, h, net))
      else Inr (st, line, h, net))"
  by pat_completeness auto
termination
  by (relation "measure (\<lambda>(I, i, s). nat (I - i))") auto

declare load_inputs.simps [simp del]

text \<open>Connecting a gate to one driver: \<^verbatim>\<open>g->newInput(d, inv); d->newFollow(g);\<close>\<close>

definition connect :: "nat \<Rightarrow> ptr \<Rightarrow> ptr \<Rightarrow> bool \<Rightarrow> heap \<Rightarrow> heap option" where
  "connect n g d isInverting h =
     do {
       h \<leftarrow> newInput n g d isInverting h;
       on_gate d (newFollow g) h
     }"

text \<open>
  One output line. A constant output (literal 0 or 1) removes slot i and shortens the
  loop: the result carries the new values of i and O.
\<close>

definition load_output :: "nat \<Rightarrow> int \<Rightarrow> int \<Rightarrow> int \<Rightarrow> heap \<times> BooleanNet \<Rightarrow> int \<Rightarrow> (int \<times> int \<times> heap \<times> BooleanNet) option" where
  "load_output n I out i s gateNr =
     (case s of (h, net) \<Rightarrow>
        if gateNr = 1 \<or> gateNr = 0
        then Some (int32 (i - 1), int32 (out - 1), h, remOutput (uint32 i) net)
        else if cdiv gateNr 2 \<le> I \<and> cmod gateNr 2 = 1
        then map_option (\<lambda>h. (i, out, h, net))
               (connect n (getOutput net (uint32 i)) (getInput net (uint32 (int32 (cdiv gateNr 2 - 1)))) True h)
        else if cdiv gateNr 2 \<le> I
        then map_option (\<lambda>h. (i, out, h, net))
               (connect n (getOutput net (uint32 i)) (getInput net (uint32 (int32 (cdiv gateNr 2 - 1)))) False h)
        else if cmod gateNr 2 = 1
        then map_option (\<lambda>h. (i, out, h, net))
               (connect n (getOutput net (uint32 i))
                  (getGate net (uint32 (int32 (int32 (cdiv gateNr 2 - I) - 1)))) True h)
        else map_option (\<lambda>h. (i, out, h, net))
               (connect n (getOutput net (uint32 i))
                  (getGate net (uint32 (int32 (int32 (cdiv gateNr 2 - I) - 1)))) False h))"

text \<open>
  The loop over the output lines. Every step either advances i or lowers O, so at most
  \<open>k\<close> steps are taken when \<open>k\<close> bounds their distance; \<open>None\<close> is a crash.
\<close>

fun load_outputs :: "nat \<Rightarrow> nat \<Rightarrow> int \<Rightarrow> int \<Rightarrow> int \<Rightarrow> load_state \<Rightarrow> (load_state + int \<times> load_state) option" where
  "load_outputs 0 n I out i s = None"
| "load_outputs (Suc k) n I out i (st, line, h, net) =
     (if i < out
      then (if \<not> eof st
            then (case getline newline (st, line) of
                    (st, line) \<Rightarrow>
                      (case load_output n I out i (h, net) (int32 (strtol line)) of
                         None \<Rightarrow> None
                       | Some (i, out, h, net) \<Rightarrow> load_outputs k n I out (int32 (i + 1)) (st, line, h, net)))
            else Some (Inl (st, line, h, net)))
      else Some (Inr (out, st, line, h, net)))"

text \<open>One input of an AND line: a primary input if the literal is at most 2I+1, else a gate.\<close>

definition and_driver :: "int \<Rightarrow> BooleanNet \<Rightarrow> int \<Rightarrow> ptr" where
  "and_driver I net lit =
     (if lit \<le> int32 (int32 (2 * I) + 1)
      then getInput net (uint32 (int32 (cdiv lit 2 - 1)))
      else getGate net (uint32 (int32 (int32 (cdiv lit 2 - I) - 1))))"

definition load_and :: "nat \<Rightarrow> int \<Rightarrow> heap \<times> BooleanNet \<Rightarrow> int \<Rightarrow> int \<Rightarrow> int \<Rightarrow> heap option" where
  "load_and n I s gateNr in1 in2 =
     (case s of (h, net) \<Rightarrow>
        do {
          let isIn1Inverted = (cmod in1 2 = 1);
          let isIn2Inverted = (cmod in2 2 = 1);
          let gate = getGate net (uint32 (int32 (int32 (cdiv gateNr 2 - I) - 1)));
          h \<leftarrow> on_gate gate (setFunction AND) h;
          h \<leftarrow> connect n gate (and_driver I net in1) isIn1Inverted h;
          connect n gate (and_driver I net in2) isIn2Inverted h
        })"

fun load_ands :: "nat \<Rightarrow> nat \<Rightarrow> int \<Rightarrow> int \<Rightarrow> int \<Rightarrow> load_state \<Rightarrow> (load_state + load_state) option" where
  "load_ands 0 n I A i s = None"
| "load_ands (Suc k) n I A i (st, line, h, net) =
     (if i < A
      then (if \<not> eof st
            then (case getline CHR '' '' (st, line) of (st, line) \<Rightarrow>
                    let gateNr = int32 (strtol line) in
                    (case getline CHR '' '' (st, line) of (st, line) \<Rightarrow>
                       let in1 = int32 (strtol line) in
                       (case getline newline (st, line) of (st, line) \<Rightarrow>
                          let in2 = int32 (strtol line) in
                          (case load_and n I (h, net) gateNr in1 in2 of
                             None \<Rightarrow> None
                           | Some h \<Rightarrow> load_ands k n I A (int32 (i + 1)) (st, line, h, net)))))
            else Some (Inl (st, line, h, net)))
      else Some (Inr (st, line, h, net)))"

definition unfinished :: "load_state \<Rightarrow> loader_result" where
  "unfinished s = (case s of (st, line, h, net) \<Rightarrow>
     \<lparr> isLoaded = False, net_out = Some (h, net), errors = [] \<rparr>)"

text \<open>
  AagLoader::AagLoader(filename, net). \<open>file\<close> is the content of the file, or \<open>None\<close>
  if it cannot be opened; \<open>h\<close> is the store at the time of the call. The result is
  \<open>None\<close> if the constructor crashes or a bound is reached.
\<close>

definition AagLoader :: "nat \<Rightarrow> string option \<Rightarrow> heap \<Rightarrow> loader_result option" where
  "AagLoader n file h =
     (let st = open_file file in
      if \<not> is_open st then Some (load_error ''Cannot open file.'')
      else (case read_header (st, []) of
              Inl msg \<Rightarrow> Some (load_error msg)
            | Inr (hdr, st, line) \<Rightarrow>
                if hdr_M hdr \<noteq> int32 (int32 (hdr_I hdr + hdr_L hdr) + hdr_A hdr)
                then Some (load_error ''Incorrect magic numbers.'')
                else if hdr_L hdr \<noteq> 0
                then Some (load_error ''Latches present! This tool is not able to work with latches in AAG. Remove Latches from design!'')
                else
                  (case new_BooleanNet n (uint32 (hdr_I hdr)) (uint32 (hdr_O hdr)) (uint32 (hdr_A hdr)) h of
                     None \<Rightarrow> None
                   | Some (h, net) \<Rightarrow>
                       (case load_inputs (hdr_I hdr) 0 (st, line, h, net) of
                          Inl s \<Rightarrow> Some (unfinished s)
                        | Inr s \<Rightarrow>
                            (case load_outputs n n (hdr_I hdr) (hdr_O hdr) 0 s of
                               None \<Rightarrow> None
                             | Some (Inl s) \<Rightarrow> Some (unfinished s)
                             | Some (Inr (out, s)) \<Rightarrow>
                                 (case load_ands n n (hdr_I hdr) (hdr_A hdr) 0 s of
                                    None \<Rightarrow> None
                                  | Some (Inl s) \<Rightarrow> Some (unfinished s)
                                  | Some (Inr (st, line, h, net)) \<Rightarrow>
                                      Some \<lparr> isLoaded = True, net_out = Some (h, net), errors = [] \<rparr>))))))"


section \<open>BooleanNet: InsertBuffsByScoap (booleannet.cpp 631-710, gate.h 145-152)\<close>

text \<open>The product the comparator looks at, in \<^verbatim>\<open>unsigned int\<close> arithmetic.\<close>

definition scoap_product :: "Gate \<Rightarrow> 32 word" where
  "scoap_product g = getObservability g * get0Controlability g * get1Controlability g"

definition gateScoapComparator :: "heap \<Rightarrow> ptr \<Rightarrow> ptr \<Rightarrow> bool option" where
  "gateScoapComparator h g0 g1 =
     do {
       a \<leftarrow> rd h g0 scoap_product;
       b \<leftarrow> rd h g1 scoap_product;
       Some (a > b)
     }"

text \<open>
  \<^verbatim>\<open>std::priority_queue<Gate *, vector<Gate *>, gateScoapComparator>\<close>, kept as the
  list of its elements in the order they were pushed. top() is an element that the
  comparator orders before no other element; among several such elements the library
  is free to choose, and the earliest pushed one is taken here. pop() removes it.
\<close>

fun pq_select :: "heap \<Rightarrow> nat \<times> ptr \<Rightarrow> (nat \<times> ptr) list \<Rightarrow> (nat \<times> ptr) option" where
  "pq_select h best [] = Some best"
| "pq_select h best (c # cs) =
     (case gateScoapComparator h (snd best) (snd c) of
        None \<Rightarrow> None
      | Some lower \<Rightarrow> pq_select h (if lower then c else best) cs)"

definition pq_top_entry :: "heap \<Rightarrow> ptr list \<Rightarrow> (nat \<times> ptr) option" where
  "pq_top_entry h q = (case enumerate 0 q of [] \<Rightarrow> None | e # es \<Rightarrow> pq_select h e es)"

definition pq_top :: "heap \<Rightarrow> ptr list \<Rightarrow> ptr option" where
  "pq_top h q = map_option snd (pq_top_entry h q)"

definition pq_pop :: "heap \<Rightarrow> ptr list \<Rightarrow> ptr list option" where
  "pq_pop h q = map_option (\<lambda>e. erase_at (fst e) q) (pq_top_entry h q)"

definition pq_push :: "ptr \<Rightarrow> ptr list \<Rightarrow> ptr list" where
  "pq_push p q = q @ [p]"

text \<open>The first loop: which gates enter the queue.\<close>

definition collect_gate :: "heap \<Rightarrow> BooleanNet \<Rightarrow> nat \<Rightarrow> ptr list \<Rightarrow> ptr list option" where
  "collect_gate h net i q =
     do {
       let gi = gates net ! i;
       g \<leftarrow> deref h gi;
       if getFunction g = BUFFER then Some q
       else if getFanOut g = 1
       then (if getFollow g 0 = None then Some q
             else do {
               f \<leftarrow> deref h (getFollow g 0);
               if getFunction f = BUFFER then Some q else Some (pq_push gi q)
             })
       else Some (pq_push gi q)
     }"

text \<open>The body of the second loop, up to and including \<^verbatim>\<open>maxHeap.pop()\<close>.\<close>

definition insert_buffer :: "nat \<Rightarrow> heap \<times> ptr list \<times> ptr list \<Rightarrow> (heap \<times> ptr list \<times> ptr list) option" where
  "insert_buffer n s =
     (case s of (h, q, newBuffers) \<Rightarrow>
        do {
          top \<leftarrow> pq_top h q;
          nm \<leftarrow> rd h top getName;
          let (buff, h) = alloc (nm @ ''_SCOAPBUFF'') h;
          h \<leftarrow> on_gate buff (setFunction BUFFER) h;
          h \<leftarrow> on_gate buff setOutputNonInverting h;
          h \<leftarrow> on_gate buff (setPlacement INNER) h;
          h \<leftarrow> for_loop n (\<lambda>h. rd h top getFanOut)
                 (\<lambda>j h. do {
                    f \<leftarrow> rd h top (\<lambda>g. getFollow g j);
                    h \<leftarrow> on_gate buff (newFollow f) h;
                    f \<leftarrow> rd h top (\<lambda>g. getFollow g j);
                    swapDriver n f top buff h
                  }) 0 h;
          h \<leftarrow> while_loop n (\<lambda>h. rd h top (\<lambda>g. getFanOut g \<noteq> 0))
                 (\<lambda>h. do {
                    f \<leftarrow> rd h top (\<lambda>g. getFollow g 0);
                    on_gate top (remFollow f) h
                  }) h;
          h \<leftarrow> on_gate top (newFollow buff) h;
          h \<leftarrow> newInput n buff top False h;
          q \<leftarrow> pq_pop h q;
          Some (h, q, newBuffers @ [buff])
        })"

text \<open>
  The second loop. \<^verbatim>\<open>i\<close> is an int; it is compared with \<^verbatim>\<open>maxHeap.size()\<close> as a
  64-bit unsigned and with \<^verbatim>\<open>places\<close> as a 32-bit unsigned value. The body ends with
  \<^verbatim>\<open>i--\<close>, and then the loop's \<^verbatim>\<open>i++\<close> runs.
\<close>

fun insert_loop :: "nat \<Rightarrow> nat \<Rightarrow> 32 word \<Rightarrow> int \<Rightarrow> heap \<times> ptr list \<times> ptr list \<Rightarrow> (heap \<times> ptr list \<times> ptr list) option" where
  "insert_loop 0 n places i s = None"
| "insert_loop (Suc k) n places i s =
     (case s of (h, q, newBuffers) \<Rightarrow>
        if i mod 2 ^ 64 < int (length q) \<and> (word_of_int i :: 32 word) < places
        then (case insert_buffer n s of
                None \<Rightarrow> None
              | Some s' \<Rightarrow> insert_loop k n places (int32 (int32 (i - 1) + 1)) s')
        else Some s)"

definition InsertBuffsByScoap :: "nat \<Rightarrow> 32 word \<Rightarrow> heap \<times> BooleanNet \<Rightarrow> (heap \<times> BooleanNet) option" where
  "InsertBuffsByScoap n places s =
     (case s of (h, net) \<Rightarrow>
        do {
          q \<leftarrow> for_loop n (const_bound (length (gates net))) (collect_gate h net) 0 [];
          (h, q, newBuffers) \<leftarrow> insert_loop n n places 0 (h, q, []);
          Some (h, net\<lparr> gates := gates net @ newBuffers, buffers := buffers net @ newBuffers \<rparr>)
        })"

section \<open>BooleanNet: convDualRail (booleannet.cpp 280-453, 544-556)\<close>







text \<open>
  The exchange of drivers between an output and its new twin when the output's edge is
  inverting (lines 354-380). Every argument is read from the store as it is at the call.
\<close>

definition swap_output_rails :: "nat \<Rightarrow> ptr \<Rightarrow> heap \<Rightarrow> heap option" where
  "swap_output_rails n oi h =
     do {
       h \<leftarrow> on_gate oi (setInputNonInverting 0) h;
       old \<leftarrow> rd h oi (\<lambda>g. getDriver g 0);
       oc \<leftarrow> rd h oi getComplement;
       new \<leftarrow> rd h oc (\<lambda>g. getDriver g 0);
       h \<leftarrow> swapDriver n oi old new h;
       oc \<leftarrow> rd h oi getComplement;
       old \<leftarrow> rd h oc (\<lambda>g. getDriver g 0);
       d \<leftarrow> rd h oi (\<lambda>g. getDriver g 0);
       new \<leftarrow> rd h d getComplement;
       h \<leftarrow> swapDriver n oc old new h;
       d \<leftarrow> rd h oi (\<lambda>g. getDriver g 0);
       oc \<leftarrow> rd h oi getComplement;
       h \<leftarrow> on_gate d (remFollow oc) h;
       d \<leftarrow> rd h oi (\<lambda>g. getDriver g 0);
       h \<leftarrow> on_gate d (newFollow oi) h;
       oc \<leftarrow> rd h oi getComplement;
       d \<leftarrow> rd h oc (\<lambda>g. getDriver g 0);
       h \<leftarrow> on_gate d (remFollow oi) h;
       oc \<leftarrow> rd h oi getComplement;
       d \<leftarrow> rd h oc (\<lambda>g. getDriver g 0);
       on_gate d (newFollow oc) h
     }"

text \<open>Duplicating primary output i (lines 340-383).\<close>

definition dup_output_wire :: "nat \<Rightarrow> ptr \<Rightarrow> ptr \<Rightarrow> heap \<Rightarrow> heap option" where
  "dup_output_wire n oi out h =
     do {
       fn \<leftarrow> rd h oi getFunction;
       h \<leftarrow> on_gate out (setFunction fn) h;
       pl \<leftarrow> rd h oi getPlacement;
       h \<leftarrow> on_gate out (setPlacement pl) h;
       h \<leftarrow> on_gate out (setComplement oi) h;
       h \<leftarrow> on_gate oi (setComplement out) h;
       d \<leftarrow> rd h oi (\<lambda>g. getDriver g 0);
       c \<leftarrow> rd h d getComplement;
       h \<leftarrow> newInput n out c False h;
       d \<leftarrow> rd h oi (\<lambda>g. getDriver g 0);
       c \<leftarrow> rd h d getComplement;
       h \<leftarrow> on_gate c (newFollow out) h;
       b \<leftarrow> rd h oi (\<lambda>g. isInputInverting g 0);
       if b then swap_output_rails n oi h else Some h
     }"








section \<open>Reference notions and example states\<close>

text \<open>The depths of the gates a vector points to; \<open>None\<close> if one of them cannot be read.\<close>

fun depths_of :: "heap \<Rightarrow> ptr list \<Rightarrow> 32 word list option" where
  "depths_of h [] = Some []"
| "depths_of h (p # ps) =
     (case deref h p of
        None \<Rightarrow> None
      | Some g \<Rightarrow> map_option ((#) (getDepth g)) (depths_of h ps))"

text \<open>A gate that lists gate 7 twice, with gate 3 in between, as driver and as follower.\<close>

definition gate_pxp :: Gate where
  "gate_pxp = (new_Gate ''GATE_0'')\<lparr> inputs := [Some 7, Some 3, Some 7],
                 inputInverters := [True, False, False],
                 followingGates := [Some 7, Some 3, Some 7] \<rparr>"

text \<open>A network with one output of depth 1 whose cached netDepth is 5.\<close>

definition stale_heap :: heap where
  "stale_heap = [ (new_Gate ''OUT_0'')\<lparr> gatePlacement := OUTPUT, depth := 1 \<rparr> ]"

definition stale_net :: BooleanNet where
  "stale_net = \<lparr> gates = [], net_inputs = [], outputs = [Some 0], buffers = [],
                 netDepth = 5, netSumScoap = 0, netPlaced = False \<rparr>"

text \<open>The first line of an ASCII AIGER file with the given five numbers.\<close>

definition header_line :: "nat \<Rightarrow> nat \<Rightarrow> nat \<Rightarrow> nat \<Rightarrow> nat \<Rightarrow> string" where
  "header_line M I L out A =
     ''aag '' @ dec M @ '' '' @ dec I @ '' '' @ dec L @ '' '' @ dec out @ '' '' @ dec A @ [newline]"

text \<open>Example files: a two-input AND; an AND with an inverted first input and an inverted
  output; a chain of three AND gates.\<close>

definition and_file :: string where
  "and_file = ''aag 3 2 0 1 1'' @ [newline] @ ''2'' @ [newline] @ ''4'' @ [newline] @ ''6'' @ [newline] @ ''6 2 4'' @ [newline]"

definition chain_file :: string where
  "chain_file = ''aag 5 2 0 1 3'' @ [newline] @ ''2'' @ [newline] @ ''4'' @ [newline] @ ''10'' @ [newline] @ ''6 2 4'' @ [newline] @ ''8 6 2'' @ [newline] @ ''10 8 4'' @ [newline]"


text \<open>
  The lines of \<open>and_file\<close> after the header; that body behind a header whose first
  number is \<open>2^32 + 3\<close>, and behind a header whose number of latches is \<open>2^32\<close>.
\<close>

definition and_body :: string where
  "and_body = ''2'' @ [newline] @ ''4'' @ [newline] @ ''6'' @ [newline] @ ''6 2 4'' @ [newline]"

definition wrapped_M_file :: string where
  "wrapped_M_file = header_line 4294967299 2 0 1 1 @ and_body"

definition wrapped_L_file :: string where
  "wrapped_L_file = header_line 3 2 4294967296 1 1 @ and_body"

definition loaded :: "string \<Rightarrow> (heap \<times> BooleanNet) option" where
  "loaded file = Option.bind (AagLoader 20 (Some file) []) net_out"


section \<open>Notions used in the proofs\<close>

text \<open>
  Two stores that differ in depths only; two stores related gate by gate, outside a set
  of addresses; relations between the old and the new state of a gate that hold across
  every change of depth and of the follower list.
\<close>

definition deq :: "heap \<Rightarrow> heap \<Rightarrow> bool" where
  "deq h h' \<longleftrightarrow> length h' = length h \<and> (\<forall>a<length h. \<exists>d. h' ! a = (h ! a)\<lparr> depth := d \<rparr>)"

definition heap_rel :: "nat set \<Rightarrow> (Gate \<Rightarrow> Gate \<Rightarrow> bool) \<Rightarrow> heap \<Rightarrow> heap \<Rightarrow> bool" where
  "heap_rel A R h h' \<longleftrightarrow> length h' = length h \<and> (\<forall>a<length h. a \<notin> A \<longrightarrow> R (h ! a) (h' ! a))"

definition good_rel :: "(Gate \<Rightarrow> Gate \<Rightarrow> bool) \<Rightarrow> bool" where
  "good_rel R \<longleftrightarrow> (\<forall>g. R g g) \<and> (\<forall>g1 g2 g3. R g1 g2 \<longrightarrow> R g2 g3 \<longrightarrow> R g1 g3)
      \<and> (\<forall>g d. R g (g\<lparr> depth := d \<rparr>)) \<and> (\<forall>g fs. R g (g\<lparr> followingGates := fs \<rparr>))"

text \<open>
  \<open>pres A R f\<close>: whenever the operation \<open>f\<close> returns, every gate outside \<open>A\<close> is
  related by \<open>R\<close> to what it was. The three \<open>edit\<close> predicates say that a relation
  holds across the changes convDualRail makes to the inputs of an existing gate.
\<close>

definition pres :: "nat set \<Rightarrow> (Gate \<Rightarrow> Gate \<Rightarrow> bool) \<Rightarrow> (heap \<Rightarrow> heap option) \<Rightarrow> bool" where
  "pres A R f \<longleftrightarrow> (\<forall>h h'. f h = Some h' \<longrightarrow> heap_rel A R h h')"

definition edit_inputs :: "(Gate \<Rightarrow> Gate \<Rightarrow> bool) \<Rightarrow> bool" where
  "edit_inputs R \<longleftrightarrow> (\<forall>g i x. R g (g\<lparr> inputs := (inputs g)[i := x] \<rparr>))"

definition edit_bits :: "(Gate \<Rightarrow> Gate \<Rightarrow> bool) \<Rightarrow> bool" where
  "edit_bits R \<longleftrightarrow> (\<forall>g i. R g (setInputNonInverting i g) \<and> R g (setInputInverting i g))"


text \<open>
  The fields of a gate other than its depth and its followers (\<open>core\<close>), and those that
  the removal of the inverters leaves alone (\<open>shape\<close>).
\<close>

definition same_on :: "(Gate \<Rightarrow> 'a) \<Rightarrow> Gate \<Rightarrow> Gate \<Rightarrow> bool" where
  "same_on F g g' \<longleftrightarrow> F g' = F g"

definition core :: "Gate \<Rightarrow> ptr list \<times> bool list \<times> bool \<times> ptr \<times> gateFunction_t \<times> gatePlacement_t" where
  "core g = (inputs g, inputInverters g, outputInverter g, complementaryGate g, gateFunction g, gatePlacement g)"


definition frame2 :: "nat set \<Rightarrow> heap \<Rightarrow> heap \<Rightarrow> bool" where
  "frame2 A h h' \<longleftrightarrow> heap_rel A (same_on core) h h' \<and> heap_rel {} (same_on complementaryGate) h h'"









text \<open>
  The network loaded from \<open>and_file\<close>, with primary input 0 set to 1 and primary input
  1 set to 0 (what simInVect does for the vector 0x1), after computeOutputValue on its
  AND gate: the value stored in that gate.
\<close>

definition and_gate_value :: "bool \<Rightarrow> bool option" where
  "and_gate_value uninit =
     Option.bind (loaded and_file) (\<lambda>s. case s of (h, net) \<Rightarrow>
       do {
         h \<leftarrow> on_gate (getInput net 0) (setOutputValue True) h;
         h \<leftarrow> on_gate (getInput net 1) (setOutputValue False) h;
         h \<leftarrow> computeOutputValue uninit (getGate net 0) h;
         rd h (getGate net 0) getOutputValue
       })"

text \<open>
  The names of the buffers that InsertBuffsByScoap has created on the network loaded
  from a file.
\<close>

definition inserted_buffer_names :: "string \<Rightarrow> 32 word \<Rightarrow> string option list option" where
  "inserted_buffer_names file places =
     Option.bind (loaded file) (\<lambda>s.
       map_option (\<lambda>(h, net). map (\<lambda>p. rd h p getName) (buffers net))
         (InsertBuffsByScoap 20 places s))"





section \<open>Placement\<close>

text \<open>
  C10. A gate that has not been placed reports the sentinel -1 for both coordinates and
  isPlaced() is false; a newly constructed gate is not placed. After placeGate(x, y),
  isPlaced() is true and the coordinates are x and y.
\<close>

theorem placement_sentinel:
  "\<not> isPlaced (new_Gate nm)
   \<and> (\<not> isPlaced g \<longrightarrow> getPlaceXCoord g = - 1 \<and> getPlaceYCoord g = - 1)
   \<and> isPlaced (placeGate x y g)
   \<and> getPlaceXCoord (placeGate x y g) = x
   \<and> getPlaceYCoord (placeGate x y g) = y"
  by (simp add: isPlaced_def new_Gate_def getPlaceXCoord_def getPlaceYCoord_def placeGate_def)

theorem placement_sentinel_witness:
  "\<not> isPlaced (new_Gate ''GATE_0'')
   \<and> getPlaceXCoord (new_Gate ''GATE_0'') = - 1 \<and> getPlaceYCoord (new_Gate ''GATE_0'') = - 1
   \<and> isPlaced (placeGate 3 4 (new_Gate ''GATE_0''))
   \<and> getPlaceXCoord (placeGate 3 4 (new_Gate ''GATE_0'')) = 3
   \<and> getPlaceYCoord (placeGate 3 4 (new_Gate ''GATE_0'')) = 4"
  using placement_sentinel [of "''GATE_0''" "new_Gate ''GATE_0''" 3 4] by simp

section \<open>NULL arguments\<close>

text \<open>
  C9. On any allocated gate, newInput(NULL, b), newFollow(NULL), remInput(NULL) and
  remFollow(NULL) leave the whole store as it was: no input, inverter bit, follower or
  depth changes.
\<close>

theorem null_argument_noop:
  "deref h this = Some g \<Longrightarrow>
     newInput n this None b h = Some h
     \<and> on_gate this (newFollow None) h = Some h
     \<and> on_gate this (remInput None) h = Some h
     \<and> on_gate this (remFollow None) h = Some h"
  by (cases this) (auto simp: newInput_def newFollow_def remInput_def remFollow_def split: if_splits)

theorem null_argument_noop_witness:
  "deref [new_Gate ''GATE_0''] (Some 0) = Some (new_Gate ''GATE_0'')
   \<and> newInput 5 (Some 0) None True [new_Gate ''GATE_0''] = Some [new_Gate ''GATE_0'']
   \<and> on_gate (Some 0) (newFollow None) [new_Gate ''GATE_0''] = Some [new_Gate ''GATE_0'']
   \<and> on_gate (Some 0) (remInput None) [new_Gate ''GATE_0''] = Some [new_Gate ''GATE_0'']
   \<and> on_gate (Some 0) (remFollow None) [new_Gate ''GATE_0''] = Some [new_Gate ''GATE_0'']"
proof -
  have d: "deref [new_Gate ''GATE_0''] (Some 0) = Some (new_Gate ''GATE_0'')" by simp
  show ?thesis using d null_argument_noop [OF d, of 5 True] by simp
qed

section \<open>Removing a driver or a follower\<close>

text \<open>
  C4. remFollow and remInput on a list that holds the argument at positions 0 and 2:
  both occurrences are erased (the loop goes on after the first erase), where removing
  the first match only would leave the second one in place.
\<close>

theorem rem_removes_two_occurrences:
  "followingGates (remFollow (Some 7) gate_pxp) = [Some 3]
   \<and> inputs (remInput (Some 7) gate_pxp) = [Some 3]
   \<and> inputInverters (remInput (Some 7) gate_pxp) = [False]
   \<and> remove1 (Some 7) (followingGates gate_pxp) = [Some 3, Some 7]"
  by (simp add: remFollow_def remInput_def gate_pxp_def new_Gate_def erase_at_def
      remFollow_loop.simps remInput_loop.simps)

section \<open>Simulated output of a gate\<close>

text \<open>
  C1. The two-input AND network of \<open>and_file\<close> (both edges non-inverting, output not
  inverting) with the inputs set to 1 and 0: computeOutputValue stores 1 in the AND
  gate, not the conjunction 0. Control falls from the AND label through OR and XOR into
  BUFFER, so the value stored is the parity of all inputs XOR the first input of the
  list, whatever the uninitialised \<^verbatim>\<open>result\<close> held.
\<close>

theorem and_gate_stores_one_for_inputs_1_0:
  "and_gate_value False = Some True \<and> and_gate_value True = Some True"
  by code_simp

section \<open>Network depth\<close>

lemma computeNetDepth_loop_fold:
  "i \<le> length outs \<Longrightarrow> depths_of h (drop i outs) = Some ds \<Longrightarrow>
     computeNetDepth_loop h outs i nd = Some (fold max ds nd)"
proof (induction h outs i nd arbitrary: ds rule: computeNetDepth_loop.induct)
  case (1 h outs i nd)
  show ?case
  proof (cases "i < length outs")
    case False
    with "1.prems" show ?thesis by (simp add: computeNetDepth_loop.simps)
  next
    case True
    then have dr: "drop i outs = outs ! i # drop (Suc i) outs"
      by (simp add: Cons_nth_drop_Suc)
    with "1.prems" obtain g ds' where g: "deref h (outs ! i) = Some g"
      and ds': "depths_of h (drop (Suc i) outs) = Some ds'" and ds: "ds = getDepth g # ds'"
      by (auto split: option.splits)
    have "computeNetDepth_loop h outs (i + 1) (if getDepth g > nd then getDepth g else nd)
            = Some (fold max ds' (if getDepth g > nd then getDepth g else nd))"
      using "1.IH" [OF True g, of ds'] True ds' by simp
    moreover have "(if getDepth g > nd then getDepth g else nd) = max (getDepth g) nd"
      by (auto simp: max_def)
    ultimately show ?thesis
      using True g ds by (subst computeNetDepth_loop.simps) simp
  qed
qed

lemma fold_max_Max: "fold max ds (nd::32 word) = Max (insert nd (set ds))"
  using Max.set_eq_fold [of nd ds] by simp

lemma fold_max_idem: "fold max ds (fold max ds (nd::32 word)) = fold max ds nd"
proof -
  have "\<forall>d\<in>set ds. d \<le> fold max ds nd" "nd \<le> fold max ds nd"
    by (simp_all add: fold_max_Max)
  then have "Max (insert (fold max ds nd) (set ds)) = fold max ds nd"
    by (intro Max_eqI) auto
  then show ?thesis by (simp add: fold_max_Max)
qed

text \<open>
  C3, as the code has it. When every output can be read, computeNetDepth returns, and
  netDepth becomes the maximum of its previous value and the depths of the output gates:
  a running maximum that is never lowered. It equals the maximum over the outputs when the
  previous value did not exceed that maximum, and a second call changes nothing.
\<close>

theorem computeNetDepth_running_max:
  assumes "depths_of h (outputs net) = Some ds"
  shows "\<exists>net'. computeNetDepth h net = Some net'
           \<and> net' = net\<lparr> netDepth := Max (insert (netDepth net) (set ds)) \<rparr>
           \<and> (ds \<noteq> [] \<and> netDepth net \<le> Max (set ds) \<longrightarrow> getNetDepth net' = Max (set ds))
           \<and> computeNetDepth h net' = Some net'"
proof -
  let ?net' = "net\<lparr> netDepth := fold max ds (netDepth net) \<rparr>"
  have 1: "computeNetDepth h net = Some ?net'"
    using computeNetDepth_loop_fold [of 0 "outputs net" h ds "netDepth net"] assms
    by (simp add: computeNetDepth_def)
  have 2: "computeNetDepth h ?net' = Some ?net'"
    using computeNetDepth_loop_fold [of 0 "outputs net" h ds "fold max ds (netDepth net)"] assms
    by (simp add: computeNetDepth_def fold_max_idem)
  have 3: "ds \<noteq> [] \<and> netDepth net \<le> Max (set ds) \<longrightarrow> Max (insert (netDepth net) (set ds)) = Max (set ds)"
    by (auto simp: max_def)
  show ?thesis using 1 2 3 by (simp add: fold_max_Max getNetDepth_def)
qed

theorem computeNetDepth_running_max_witness:
  "depths_of stale_heap (outputs stale_net) = Some [1]
   \<and> computeNetDepth stale_heap stale_net = Some (stale_net\<lparr> netDepth := 5 \<rparr>)
   \<and> computeNetDepth stale_heap (stale_net\<lparr> netDepth := 0 \<rparr>) = Some (stale_net\<lparr> netDepth := 1 \<rparr>)"
proof -
  have d: "depths_of stale_heap (outputs stale_net) = Some [1]"
    by (simp add: getDepth_def stale_heap_def stale_net_def new_Gate_def)
  have d0: "depths_of stale_heap (outputs (stale_net\<lparr> netDepth := 0 \<rparr>)) = Some [1]"
    using d by simp
  show ?thesis
    using d computeNetDepth_running_max [OF d] computeNetDepth_running_max [OF d0]
    by (simp add: stale_net_def)
qed

text \<open>
  C3, as stated, fails: with a cached netDepth of 5 and a single output of depth 1,
  the call leaves netDepth at 5.
\<close>

theorem computeNetDepth_keeps_stale_value:
  "map_option getNetDepth (computeNetDepth stale_heap stale_net) = Some 5
   \<and> depths_of stale_heap (outputs stale_net) = Some [1]"
  by (simp add: computeNetDepth_def getNetDepth_def getDepth_def stale_heap_def stale_net_def
      new_Gate_def computeNetDepth_loop.simps)

section \<open>Store, loops and frame lemmas\<close>

lemma deref_Some_iff: "deref h p = Some g \<longleftrightarrow> (\<exists>a. p = Some a \<and> a < length h \<and> g = h ! a)"
  by (cases p) auto

lemma on_gate_Some_iff:
  "on_gate p f h = Some h' \<longleftrightarrow> (\<exists>a. p = Some a \<and> a < length h \<and> h' = h[a := f (h ! a)])"
  by (cases p) auto




lemma deq_refl: "deq h h"
proof -
  have "\<exists>d. g = g\<lparr> depth := d \<rparr>" for g :: Gate
    by (rule exI [of _ "depth g"]) simp
  then show ?thesis by (simp add: deq_def)
qed

lemma deq_trans: "deq h1 h2 \<Longrightarrow> deq h2 h3 \<Longrightarrow> deq h1 h3"
  unfolding deq_def
proof (intro conjI allI impI)
  assume a: "length h2 = length h1 \<and> (\<forall>a<length h1. \<exists>d. h2 ! a = (h1 ! a)\<lparr> depth := d \<rparr>)"
    and b: "length h3 = length h2 \<and> (\<forall>a<length h2. \<exists>d. h3 ! a = (h2 ! a)\<lparr> depth := d \<rparr>)"
  show "length h3 = length h1" using a b by simp
  fix x assume x: "x < length h1"
  from a x obtain d where d: "h2 ! x = (h1 ! x)\<lparr> depth := d \<rparr>" by blast
  from b a x obtain d' where d': "h3 ! x = (h2 ! x)\<lparr> depth := d' \<rparr>" by auto
  show "\<exists>d. h3 ! x = (h1 ! x)\<lparr> depth := d \<rparr>"
    by (rule exI [of _ d']) (simp add: d d')
qed

lemma deq_length: "deq h h' \<Longrightarrow> length h' = length h"
  by (simp add: deq_def)

lemma deq_update:
  "a < length h \<Longrightarrow> deq (h[a := (h ! a)\<lparr> depth := d \<rparr>]) h' \<Longrightarrow> deq h h'"
proof -
  assume a: "a < length h" and q: "deq (h[a := (h ! a)\<lparr> depth := d \<rparr>]) h'"
  have "deq h (h[a := (h ! a)\<lparr> depth := d \<rparr>])"
    unfolding deq_def
  proof (intro conjI allI impI)
    show "length (h[a := (h ! a)\<lparr> depth := d \<rparr>]) = length h" by simp
    fix x assume "x < length h"
    show "\<exists>d'. h[a := (h ! a)\<lparr> depth := d \<rparr>] ! x = (h ! x)\<lparr> depth := d' \<rparr>"
    proof (cases "x = a")
      case True
      with a show ?thesis by auto
    next
      case False
      have "h ! x = (h ! x)\<lparr> depth := depth (h ! x) \<rparr>" by simp
      with False show ?thesis by (metis nth_list_update_neq)
    qed
  qed
  then show ?thesis using q by (rule deq_trans)
qed

lemma setDepth_deq:
  "(setDepth n p d h = Some (b, h') \<longrightarrow> deq h h')"
  "(setDepth_followers n p i h = Some h'' \<longrightarrow> deq h h'')"
proof (induction n p d h and n p i h arbitrary: b h' and h'' rule: setDepth_setDepth_followers.induct)
  case (1 this d h)
  then show ?case by simp
next
  case (2 n this d h)
  show ?case
  proof
    assume r: "setDepth (Suc n) this d h = Some (b, h')"
    then obtain a where a: "this = Some a" "a < length h"
      by (auto simp: deref_Some_iff split: option.splits)
    show "deq h h'"
    proof (cases "depth (h ! a) < d")
      case False
      with r a show ?thesis by (simp add: deq_refl)
    next
      case True
      with r a have f: "setDepth_followers n this 0 (h[a := (h ! a)\<lparr> depth := d \<rparr>]) = Some h'"
        by auto
      have "deq (h[a := (h ! a)\<lparr> depth := d \<rparr>]) h'"
        using "2.IH" [of "h ! a" "h[a := (h ! a)\<lparr> depth := d \<rparr>]" h'] True a f by simp
      then show ?thesis using a by (blast intro: deq_update)
    qed
  qed
next
  case (3 this i h)
  then show ?case by simp
next
  case (4 n this i h)
  show ?case
  proof
    assume r: "setDepth_followers (Suc n) this i h = Some h''"
    then obtain a where a: "this = Some a" "a < length h"
      by (auto simp: deref_Some_iff split: option.splits)
    show "deq h h''"
    proof (cases "i < length (followingGates (h ! a))")
      case False
      with r a show ?thesis by (simp add: deq_refl)
    next
      case True
      with r a obtain b1 h1 where s1: "setDepth n (followingGates (h ! a) ! i) (depth (h ! a) + 1) h = Some (b1, h1)"
        and s2: "setDepth_followers n this (i + 1) h1 = Some h''"
        by (auto split: option.splits)
      have 1: "deq h h1" using "4.IH"(1) [of "h ! a" b1 h1] True a s1 by simp
      have 2: "deq h1 h''" using "4.IH"(2) [of "h ! a" "(b1, h1)" b1 h1 h''] True a s1 s2 by simp
      from 1 2 show ?thesis by (rule deq_trans)
    qed
  qed
qed

lemma newInput_effect:
  assumes "newInput n p pred b h = Some h'"
  shows "\<exists>a. p = Some a \<and> a < length h \<and>
           (if pred = None then h' = h
            else deq (h[a := (h ! a)\<lparr> inputs := pred # inputs (h ! a),
                                        inputInverters := b # inputInverters (h ! a) \<rparr>]) h')"
proof -
  from assms obtain a where a: "p = Some a" "a < length h"
    by (auto simp: newInput_def deref_Some_iff split: option.splits)
  show ?thesis
  proof (cases "pred = None")
    case True
    with assms a show ?thesis by (simp add: newInput_def)
  next
    case False
    let ?h1 = "h[a := (h ! a)\<lparr> inputs := pred # inputs (h ! a), inputInverters := b # inputInverters (h ! a) \<rparr>]"
    from assms a False obtain pg r where "setDepth n p (getDepth pg + 1) ?h1 = Some r" "h' = snd r"
      by (auto simp: newInput_def split: option.splits)
    then have "deq ?h1 h'" using setDepth_deq(1) [of n p "getDepth pg + 1" ?h1 "fst r" "snd r"] by simp
    with a False show ?thesis by auto
  qed
qed

lemma swapDriver_effect:
  assumes "swapDriver n p old new h = Some h'"
  shows "\<exists>a. p = Some a \<and> a < length h \<and>
           (case first_index old (inputs (h ! a)) of
              None \<Rightarrow> h' = h
            | Some i \<Rightarrow> deq (h[a := (h ! a)\<lparr> inputs := (inputs (h ! a))[i := new] \<rparr>]) h')"
proof -
  from assms obtain a where a: "p = Some a" "a < length h"
    by (auto simp: swapDriver_def deref_Some_iff split: option.splits)
  show ?thesis
  proof (cases "first_index old (inputs (h ! a))")
    case None
    with assms a show ?thesis by (simp add: swapDriver_def)
  next
    case (Some i)
    let ?h1 = "h[a := (h ! a)\<lparr> inputs := (inputs (h ! a))[i := new] \<rparr>]"
    have "deq ?h1 h'"
    proof (cases "new = None")
      case True
      with assms a Some show ?thesis by (simp add: swapDriver_def deq_refl)
    next
      case False
      with assms a Some obtain ng r where "setDepth n p (getDepth ng + 1) ?h1 = Some r" "h' = snd r"
        by (auto simp: swapDriver_def split: option.splits)
      then show ?thesis using setDepth_deq(1) [of n p "getDepth ng + 1" ?h1 "fst r" "snd r"] by simp
    qed
    with a Some show ?thesis by simp
  qed
qed

lemma heap_rel_refl: "good_rel R \<Longrightarrow> heap_rel A R h h"
  by (simp add: heap_rel_def good_rel_def)

lemma heap_rel_trans: "good_rel R \<Longrightarrow> heap_rel A R h1 h2 \<Longrightarrow> heap_rel A R h2 h3 \<Longrightarrow> heap_rel A R h1 h3"
proof -
  assume g: "good_rel R" and a: "heap_rel A R h1 h2" and b: "heap_rel A R h2 h3"
  have t: "\<And>g1 g2 g3. R g1 g2 \<Longrightarrow> R g2 g3 \<Longrightarrow> R g1 g3"
    using g unfolding good_rel_def by blast
  show ?thesis
    unfolding heap_rel_def
  proof (intro conjI allI impI)
    show "length h3 = length h1" using a b by (simp add: heap_rel_def)
    fix x assume x: "x < length h1" "x \<notin> A"
    then have "R (h1 ! x) (h2 ! x)" using a by (simp add: heap_rel_def)
    moreover have "R (h2 ! x) (h3 ! x)" using a b x by (simp add: heap_rel_def)
    ultimately show "R (h1 ! x) (h3 ! x)" by (rule t)
  qed
qed


lemma heap_rel_deq: "good_rel R \<Longrightarrow> deq h h' \<Longrightarrow> heap_rel A R h h'"
proof -
  assume g: "good_rel R" and q: "deq h h'"
  show ?thesis
    unfolding heap_rel_def
  proof (intro conjI allI impI)
    show "length h' = length h" using q by (simp add: deq_def)
    fix x assume "x < length h"
    then obtain d where "h' ! x = (h ! x)\<lparr> depth := d \<rparr>" using q unfolding deq_def by blast
    then show "R (h ! x) (h' ! x)" using g by (simp add: good_rel_def)
  qed
qed

lemma heap_rel_on_gate:
  assumes "on_gate p f h = Some h'" "good_rel R"
    and "\<And>a. p = Some a \<Longrightarrow> a \<notin> A \<Longrightarrow> R (h ! a) (f (h ! a))"
  shows "heap_rel A R h h'"
proof -
  from assms(1) obtain a where a: "p = Some a" "a < length h" "h' = h[a := f (h ! a)]"
    by (auto simp: on_gate_Some_iff)
  show ?thesis
    unfolding heap_rel_def
  proof (intro conjI allI impI)
    show "length h' = length h" using a by simp
    fix x assume x: "x < length h" "x \<notin> A"
    show "R (h ! x) (h' ! x)"
    proof (cases "x = a")
      case True
      then show ?thesis using a x assms(3) by simp
    next
      case False
      then show ?thesis using a assms(2) by (simp add: good_rel_def)
    qed
  qed
qed

lemma heap_rel_follow:
  "on_gate p (newFollow q) h = Some h' \<Longrightarrow> good_rel R \<Longrightarrow> heap_rel A R h h'"
  "on_gate p (remFollow q) h = Some h' \<Longrightarrow> good_rel R \<Longrightarrow> heap_rel A R h h'"
  by (erule heap_rel_on_gate, assumption, simp add: good_rel_def newFollow_def remFollow_def)+

lemma heap_rel_swapDriver:
  assumes "swapDriver n p old new h = Some h'" "good_rel R"
    and "\<And>a i. p = Some a \<Longrightarrow> a \<notin> A \<Longrightarrow> R (h ! a) ((h ! a)\<lparr> inputs := (inputs (h ! a))[i := new] \<rparr>)"
  shows "heap_rel A R h h'"
proof -
  from swapDriver_effect [OF assms(1)] obtain a where a: "p = Some a" "a < length h"
    and c: "case first_index old (inputs (h ! a)) of None \<Rightarrow> h' = h
            | Some i \<Rightarrow> deq (h[a := (h ! a)\<lparr> inputs := (inputs (h ! a))[i := new] \<rparr>]) h'"
    by blast
  show ?thesis
  proof (cases "first_index old (inputs (h ! a))")
    case None
    with c show ?thesis by (simp add: heap_rel_refl assms(2))
  next
    case (Some i)
    let ?f = "\<lambda>g. g\<lparr> inputs := (inputs g)[i := new] \<rparr>"
    have "on_gate p ?f h = Some (h[a := ?f (h ! a)])" using a by simp
    then have 1: "heap_rel A R h (h[a := ?f (h ! a)])"
      by (rule heap_rel_on_gate) (use assms(2,3) in auto)
    have 2: "heap_rel A R (h[a := ?f (h ! a)]) h'"
      using c Some by (simp add: heap_rel_deq assms(2))
    from 1 2 show ?thesis by (rule heap_rel_trans [OF assms(2)])
  qed
qed

lemma heap_rel_newInput:
  assumes "newInput n p pred b h = Some h'" "good_rel R"
    and "\<And>a. p = Some a \<Longrightarrow> a \<notin> A \<Longrightarrow> pred \<noteq> None \<Longrightarrow>
           R (h ! a) ((h ! a)\<lparr> inputs := pred # inputs (h ! a), inputInverters := b # inputInverters (h ! a) \<rparr>)"
  shows "heap_rel A R h h'"
proof -
  from newInput_effect [OF assms(1)] obtain a where a: "p = Some a" "a < length h"
    and c: "if pred = None then h' = h
            else deq (h[a := (h ! a)\<lparr> inputs := pred # inputs (h ! a),
                                        inputInverters := b # inputInverters (h ! a) \<rparr>]) h'"
    by blast
  show ?thesis
  proof (cases "pred = None")
    case True
    with c show ?thesis by (simp add: heap_rel_refl assms(2))
  next
    case False
    let ?f = "\<lambda>g. g\<lparr> inputs := pred # inputs g, inputInverters := b # inputInverters g \<rparr>"
    have "on_gate p ?f h = Some (h[a := ?f (h ! a)])" using a by simp
    then have 1: "heap_rel A R h (h[a := ?f (h ! a)])"
      by (rule heap_rel_on_gate) (use assms(2,3) False in auto)
    have 2: "heap_rel A R (h[a := ?f (h ! a)]) h'"
      using c False by (simp add: heap_rel_deq assms(2))
    from 1 2 show ?thesis by (rule heap_rel_trans [OF assms(2)])
  qed
qed


section \<open>Composing frame lemmas\<close>


lemma pres_Some: "good_rel R \<Longrightarrow> pres A R Some"
  by (simp add: pres_def heap_rel_refl)

lemma pres_bind:
  "good_rel R \<Longrightarrow> pres A R f \<Longrightarrow> pres A R g \<Longrightarrow> pres A R (\<lambda>h. Option.bind (f h) g)"
  unfolding pres_def by (auto simp: bind_eq_Some_conv) (blast intro: heap_rel_trans)

lemma pres_rd:
  "(\<And>x. pres A R (k x)) \<Longrightarrow> pres A R (\<lambda>h. Option.bind (rd h p r) (\<lambda>x. k x h))"
  unfolding pres_def by (auto simp: bind_eq_Some_conv)

lemma pres_if:
  "pres A R f \<Longrightarrow> pres A R g \<Longrightarrow> pres A R (\<lambda>h. if c then f h else g h)"
  unfolding pres_def by auto

lemma pres_on_gate:
  "good_rel R \<Longrightarrow> (\<And>a g. p = Some a \<Longrightarrow> a \<notin> A \<Longrightarrow> R g (f g)) \<Longrightarrow> pres A R (on_gate p f)"
  unfolding pres_def by (auto intro: heap_rel_on_gate)

lemma pres_follow:
  "good_rel R \<Longrightarrow> pres A R (on_gate p (newFollow q))"
  "good_rel R \<Longrightarrow> pres A R (on_gate p (remFollow q))"
  unfolding pres_def by (auto intro: heap_rel_follow)

lemma pres_swapDriver:
  "good_rel R \<Longrightarrow> (\<And>a g i. p = Some a \<Longrightarrow> a \<notin> A \<Longrightarrow> R g (g\<lparr> inputs := (inputs g)[i := new] \<rparr>))
     \<Longrightarrow> pres A R (swapDriver n p old new)"
  unfolding pres_def by (auto intro: heap_rel_swapDriver)

lemma pres_newInput:
  "good_rel R \<Longrightarrow>
     (\<And>a g. p = Some a \<Longrightarrow> a \<notin> A \<Longrightarrow>
        R g (g\<lparr> inputs := pred # inputs g, inputInverters := b # inputInverters g \<rparr>))
     \<Longrightarrow> pres A R (newInput n p pred b)"
  unfolding pres_def by (auto intro: heap_rel_newInput)







lemma pres_swap_output_rails:
  assumes "good_rel R" "edit_inputs R" "edit_bits R"
  shows "pres A R (swap_output_rails n oi)"
  unfolding pres_def swap_output_rails_def
  apply (fold pres_def)
  apply (intro pres_rd pres_if pres_bind pres_Some pres_follow pres_on_gate pres_swapDriver assms(1))
  using assms by (auto simp: edit_inputs_def edit_bits_def)




lemma pres_dup_output_wire:
  assumes "good_rel R" "edit_inputs R" "edit_bits R" "oa \<in> A" "t \<in> A"
  shows "pres A R (dup_output_wire n (Some oa) (Some t))"
  unfolding pres_def dup_output_wire_def
  apply (fold pres_def)
  apply (intro pres_rd pres_if pres_bind pres_Some pres_follow pres_newInput pres_on_gate
      pres_swap_output_rails assms(1,2,3))
  using assms by auto

section \<open>Loading: the header checks\<close>

lemma isdigit_digit_char: "d < 10 \<Longrightarrow> isdigit (digit_char d)"
  by (simp add: isdigit_def digit_char_def)

lemma of_char_digit_char: "d < 10 \<Longrightarrow> (of_char (digit_char d) :: nat) - 48 = d"
  by (simp add: digit_char_def)

lemma dec_digits: "\<forall>c\<in>set (dec n). isdigit c"
proof (induction n rule: dec.induct)
  case (1 n)
  show ?case
  proof (cases "n < 10")
    case True
    then show ?thesis by (subst dec.simps) (simp add: isdigit_digit_char)
  next
    case False
    with 1 show ?thesis by (subst dec.simps) (simp add: isdigit_digit_char)
  qed
qed

lemma dec_nonempty: "dec n \<noteq> []"
  by (subst dec.simps) simp

lemma digits_value_append:
  "\<forall>c\<in>set xs. isdigit c \<Longrightarrow>
     digits_value acc (xs @ r) = digits_value (foldl (\<lambda>a c. 10 * a + (of_char c - 48)) acc xs) r"
  by (induction xs arbitrary: acc) auto

lemma foldl_dec: "foldl (\<lambda>a c. 10 * a + (of_char c - 48)) 0 (dec n) = n"
proof (induction n rule: dec.induct)
  case (1 n)
  show ?case
  proof (cases "n < 10")
    case True
    then show ?thesis by (subst dec.simps) (simp add: of_char_digit_char)
  next
    case False
    with 1 show ?thesis by (subst dec.simps) (simp add: of_char_digit_char)
  qed
qed

lemma digits_value_dec: "digits_value 0 (dec n) = n"
  using digits_value_append [where xs = "dec n" and acc = 0 and r = "[]"] dec_digits [of n]
  by (simp add: foldl_dec)

lemma isdigit_facts: "isdigit c \<Longrightarrow> \<not> isspace c \<and> c \<noteq> CHR 0x00 \<and> c \<noteq> CHR ''-'' \<and> c \<noteq> CHR ''+'' \<and> c \<noteq> CHR '' '' \<and> c \<noteq> newline"
  by (auto simp: isdigit_def isspace_def newline_def)

lemma strtol_dec: "strtol (dec n) = min LONG_MAX (int n)"
proof -
  obtain c r where cr: "dec n = c # r" using dec_nonempty [of n] by (cases "dec n") auto
  have all: "\<forall>c\<in>set (dec n). c \<noteq> CHR 0x00" using dec_digits isdigit_facts by blast
  then have tw: "takeWhile (\<lambda>c. c \<noteq> CHR 0x00) (dec n) = dec n" by (simp add: takeWhile_eq_all_conv)
  have c: "isdigit c" using dec_digits [of n] cr by simp
  have dw: "dropWhile isspace (dec n) = dec n" using isdigit_facts [OF c] cr by simp
  have sg: "(case dec n of [] \<Rightarrow> (False, dec n)
             | c # r \<Rightarrow> if c = CHR ''-'' then (True, r)
                        else if c = CHR ''+'' then (False, r) else (False, dec n)) = (False, dec n)"
    using isdigit_facts [OF c] cr by simp
  show ?thesis
    by (simp add: strtol_def tw dw sg digits_value_dec)
qed

lemma take_until_append: "d \<notin> set xs \<Longrightarrow> take_until d (xs @ d # r) = (xs, r, True)"
  by (induction xs) auto

lemma int32_small: "n < 2 ^ 31 \<Longrightarrow> int32 (min LONG_MAX (int n)) = int n"
  by (simp add: int32_def LONG_MAX_def min_def)

lemma read_field_dec:
  assumes "\<not> eofbit st" "\<not> failbit st" "chars st = dec k @ delim # rest" "delim = CHR '' '' \<or> delim = newline"
  shows "read_field delim msg (st, line) = Inr (int32 (min LONG_MAX (int k)), st\<lparr> chars := rest \<rparr>, dec k)"
proof -
  have "delim \<notin> set (dec k)" using dec_digits isdigit_facts assms(4) by blast
  then have "take_until delim (chars st) = (dec k, rest, True)"
    using assms(3) by (simp add: take_until_append)
  then show ?thesis
    using assms(1,2) by (simp add: read_field_def eof_def getline_def strtol_dec)
qed

lemma read_header_line:
  "read_header (open_file (Some (header_line M I L out A @ rest)), []) =
           Inr (\<lparr> hdr_M = int32 (min LONG_MAX (int M)), hdr_I = int32 (min LONG_MAX (int I)),
                  hdr_L = int32 (min LONG_MAX (int L)), hdr_O = int32 (min LONG_MAX (int out)),
                  hdr_A = int32 (min LONG_MAX (int A)) \<rparr>,
                \<lparr> is_open = True, chars = rest, eofbit = False, failbit = False \<rparr>, dec A)"
proof -
  let ?st = "\<lambda>cs. \<lparr> is_open = True, chars = cs, eofbit = False, failbit = False \<rparr>"
  let ?c1 = "dec M @ CHR '' '' # dec I @ CHR '' '' # dec L @ CHR '' '' # dec out @ CHR '' '' # dec A @ newline # rest"
  have m: "read_magic (open_file (Some (header_line M I L out A @ rest)), []) = Inr (?st ?c1, ''aag'')"
    by (simp add: read_magic_def open_file_def header_line_def eof_def getline_def)
  have f: "\<And>k delim r line. delim = CHR '' '' \<or> delim = newline \<Longrightarrow>
      read_field delim msg (?st (dec k @ delim # r), line) = Inr (int32 (min LONG_MAX (int k)), ?st r, dec k)" for msg
    using read_field_dec [of "?st (dec k @ delim # r)" for k delim r] by simp
  show ?thesis
    unfolding read_header_def m by (simp add: f)
qed

lemma loader_header_only:
  assumes "read_header (open_file (Some c1), []) = read_header (open_file (Some c2), [])"
  shows "AagLoader n (Some c1) h = AagLoader n (Some c2) h"
  using assms by (simp add: AagLoader_def open_file_def)

lemma loader_rejects:
  assumes "read_header (open_file (Some content), []) = Inr (hdr, s)"
    and "hdr_M hdr \<noteq> int32 (int32 (hdr_I hdr + hdr_L hdr) + hdr_A hdr) \<or> hdr_L hdr \<noteq> 0"
  shows "\<exists>msg. AagLoader n (Some content) h = Some (load_error msg)"
  using assms by (cases s) (auto simp: AagLoader_def open_file_def Let_def)

text \<open>
  C5, as the code has it. A file that begins with the header line \<open>aag M I L O A\<close>, where
  the decimal numbers M and I + L + A are below \<open>2^31\<close> (they fit an \<^verbatim>\<open>int\<close>; O is
  any decimal number), with M \<noteq> I + L + A or L \<noteq> 0: the constructor returns with a
  message on the error stream, the out-parameter has not been assigned (no BooleanNet
  was allocated) and isFileLoaded() is false.
\<close>

theorem loader_rejects_bad_header:
  assumes "M < 2 ^ 31" "I + L + A < 2 ^ 31"
    and "M \<noteq> I + L + A \<or> L \<noteq> 0"
  shows "\<exists>r. AagLoader n (Some (header_line M I L out A @ rest)) h = Some r
           \<and> net_out r = None \<and> \<not> isFileLoaded r \<and> errors r \<noteq> []"
proof -
  let ?hdr = "\<lparr> hdr_M = int32 (min LONG_MAX (int M)), hdr_I = int32 (min LONG_MAX (int I)),
                  hdr_L = int32 (min LONG_MAX (int L)), hdr_O = int32 (min LONG_MAX (int out)),
                  hdr_A = int32 (min LONG_MAX (int A)) \<rparr>"
  have rh: "read_header (open_file (Some (header_line M I L out A @ rest)), []) =
           Inr (?hdr, \<lparr> is_open = True, chars = rest, eofbit = False, failbit = False \<rparr>, dec A)"
    by (rule read_header_line)
  from assms(2) have s: "I < 2 ^ 31" "L < 2 ^ 31" "A < 2 ^ 31" by simp_all
  have v: "hdr_M ?hdr = int M" "hdr_I ?hdr = int I" "hdr_L ?hdr = int L" "hdr_A ?hdr = int A"
    using assms(1) s by (simp_all add: int32_small)
  have "int32 (int32 (int I + int L) + int A) = int (I + L + A)"
    using assms(2) by (simp add: int32_def)
  then have "hdr_M ?hdr \<noteq> int32 (int32 (hdr_I ?hdr + hdr_L ?hdr) + hdr_A ?hdr) \<or> hdr_L ?hdr \<noteq> 0"
    unfolding v using assms(3) by auto
  from loader_rejects [OF rh this, of n h] show ?thesis
    by (auto simp: load_error_def isFileLoaded_def)
qed

theorem loader_rejects_bad_header_witness:
  "(\<exists>r. AagLoader 20 (Some (''aag 3 2 1 1 1'' @ [newline] @ ''2'' @ [newline])) [] = Some r
       \<and> net_out r = None \<and> \<not> isFileLoaded r \<and> errors r \<noteq> [])
   \<and> (\<exists>r. AagLoader 20 (Some (''aag 4 2 0 1 1'' @ [newline])) [] = Some r
       \<and> net_out r = None \<and> \<not> isFileLoaded r \<and> errors r \<noteq> [])"
proof -
  have a: "(3::nat) < 2 ^ 31" "(2::nat) + 1 + 1 < 2 ^ 31" "(3::nat) \<noteq> 2 + 1 + 1 \<or> (1::nat) \<noteq> 0"
    by simp_all
  have b: "(4::nat) < 2 ^ 31" "(2::nat) + 0 + 1 < 2 ^ 31" "(4::nat) \<noteq> 2 + 0 + 1 \<or> (0::nat) \<noteq> 0"
    by simp_all
  have ha: "header_line 3 2 1 1 1 = ''aag 3 2 1 1 1'' @ [newline]"
    by code_simp
  have hb: "header_line 4 2 0 1 1 = ''aag 4 2 0 1 1'' @ [newline]"
    by code_simp
  show ?thesis
    using loader_rejects_bad_header [OF a, of 20 1 "''2'' @ [newline]" "[]"]
      loader_rejects_bad_header [OF b, of 20 1 "[]" "[]"]
    unfolding ha hb by simp
qed

text \<open>
  C5, as stated, fails: the header numbers are stored into \<^verbatim>\<open>int\<close> variables before
  they are compared. The header \<open>aag 4294967299 2 0 1 1\<close> has M \<noteq> I + L + A, and the
  header \<open>aag 3 2 4294967296 1 1\<close> has L \<noteq> 0; with the body of \<open>and_file\<close> both files are
  loaded, as \<open>and_file\<close> is, since 4294967299 is stored as 3 and 4294967296 as 0.
\<close>

theorem loader_accepts_wrapped_header:
  "map_option isFileLoaded (AagLoader 20 (Some wrapped_M_file) []) = Some True
   \<and> map_option isFileLoaded (AagLoader 20 (Some wrapped_L_file) []) = Some True"
proof -
  have a: "and_file = header_line 3 2 0 1 1 @ and_body"
    by code_simp
  have w: "int32 (min LONG_MAX (int 4294967299)) = int32 (min LONG_MAX (int 3))"
    "int32 (min LONG_MAX (int 4294967296)) = int32 (min LONG_MAX (int 0))"
    by (simp_all add: int32_def LONG_MAX_def)
  have m: "AagLoader 20 (Some wrapped_M_file) [] = AagLoader 20 (Some and_file) []"
    unfolding a wrapped_M_file_def
    by (rule loader_header_only) (simp only: read_header_line w)
  have l: "AagLoader 20 (Some wrapped_L_file) [] = AagLoader 20 (Some and_file) []"
    unfolding a wrapped_L_file_def
    by (rule loader_header_only) (simp only: read_header_line w)
  have "map_option isFileLoaded (AagLoader 20 (Some and_file) []) = Some True"
    by code_simp
  then show ?thesis by (simp only: m l)
qed

section \<open>Buffer insertion\<close>

text \<open>
  C2. InsertBuffsByScoap(1) on the chain of three AND gates of \<open>chain_file\<close>, where
  two gates are eligible (the third drives only the output buffer): two buffers are
  inserted, one behind each eligible gate, although the count is 1. The loop index is
  decremented in the body and incremented by the loop, so it stays 0 and the loop runs
  until the queue is empty.
\<close>

theorem InsertBuffsByScoap_ignores_count:
  "inserted_buffer_names chain_file 1 = Some [Some ''GATE_0_SCOAPBUFF'', Some ''GATE_1_SCOAPBUFF'']"
  by code_simp

section \<open>Dual rail: removing the inverters\<close>


















section \<open>Dual rail: the duplication steps\<close>






lemma edits_comp: "edit_inputs (same_on complementaryGate)" "edit_bits (same_on complementaryGate)"
  by (simp_all add: edit_inputs_def edit_bits_def same_on_def
      setInputNonInverting_def setInputInverting_def)






lemma frame2_length: "frame2 A h h' \<Longrightarrow> length h' = length h"
  by (simp add: frame2_def heap_rel_def)

































section \<open>Dual rail: the complement of a primary input\<close>




section \<open>Dual rail: duality\<close>










end
